theory Spec2Isabelle
  imports Main
begin

unbundle bit_operations_syntax

section \<open>Python values, errors and the syslog module\<close>

text \<open>
  The observer of \<^verbatim>\<open>twisted/python/logger/_syslog.py\<close> receives an event, a Python
  \<^verbatim>\<open>dict\<close> from field names to arbitrary values. The values are modelled by a
  datatype that has a representative of every kind the code tells apart: integers, text,
  \<^verbatim>\<open>None\<close>, the level constants, failures, and lists (which cannot be hashed).
\<close>

text \<open>
  Modelled from the spec: the level enumeration \<^verbatim>\<open>LogLevel\<close> of \<^verbatim>\<open>_levels.py\<close>,
  which is not among the sources. The spec names five symbolic levels.
\<close>

datatype LogLevel = debug | info | warn | error | critical

datatype pyval =
    PyNone
  | PyInt int
  | PyStr string
  | PyLevel LogLevel
  | PyFailure string
  | PyList "pyval list"

text \<open>The exceptions the code can meet. Only \<^verbatim>\<open>KeyError\<close> is ever caught.\<close>

datatype pyerr =
    KeyError | TypeError | AttributeError | ValueError | OverflowError | UnicodeEncodeError

type_synonym event = "string \<rightharpoonup> pyval"

text \<open>
  \<^verbatim>\<open>int(v)\<close>. An integer is returned as it is; text is read as an integer literal or
  raises \<^verbatim>\<open>ValueError\<close>; every other value of the model raises \<^verbatim>\<open>TypeError\<close>.
  Which texts Python reads as integers (signs, blanks, digit separators, length limits)
  differs between versions of the interpreter, so the reading of text is a parameter
  \<open>parse\<close> of the model, and every theorem holds for each such reading.
\<close>

fun py_int :: "(string \<Rightarrow> int option) \<Rightarrow> pyval \<Rightarrow> pyerr + int" where
  "py_int parse (PyInt i) = Inr i"
| "py_int parse (PyStr s) = (case parse s of None \<Rightarrow> Inl ValueError | Some i \<Rightarrow> Inr i)"
| "py_int parse v = Inl TypeError"

text \<open>Whether \<^verbatim>\<open>hash(v)\<close> succeeds, so that \<open>v\<close> can be looked up in a dict.\<close>

fun hashable :: "pyval \<Rightarrow> bool" where
  "hashable (PyList xs) = False"
| "hashable v = True"

text \<open>
  Modelled from the spec: \<^verbatim>\<open>Failure.getTraceback\<close> of \<^verbatim>\<open>twisted/python/failure.py\<close>,
  which is not among the sources. A failure value exposes its traceback text; any other
  value has no such method, and the attribute access raises.
\<close>

fun getTraceback :: "pyval \<Rightarrow> pyerr + string" where
  "getTraceback (PyFailure tb) = Inr tb"
| "getTraceback v = Inl AttributeError"

text \<open>The priorities and the facility of \<^verbatim>\<open><syslog.h>\<close> that the module reads.\<close>

definition LOG_ALERT :: int where "LOG_ALERT = 1"
definition LOG_ERR :: int where "LOG_ERR = 3"
definition LOG_WARNING :: int where "LOG_WARNING = 4"
definition LOG_INFO :: int where "LOG_INFO = 6"
definition LOG_DEBUG :: int where "LOG_DEBUG = 7"
definition LOG_USER :: int where "LOG_USER = 8"

definition DEFAULT_OPTIONS :: int where "DEFAULT_OPTIONS = 0"
definition DEFAULT_FACILITY :: int where "DEFAULT_FACILITY = LOG_USER"

definition toSyslogLevelMapping :: "LogLevel \<rightharpoonup> int" where
  "toSyslogLevelMapping = map_of
     [(debug, LOG_DEBUG),
      (info, LOG_INFO),
      (warn, LOG_WARNING),
      (error, LOG_ERR),
      (critical, LOG_ALERT)]"

text \<open>\<^verbatim>\<open>event[key]\<close>: the value, or \<^verbatim>\<open>KeyError\<close>.\<close>

definition getitem :: "event \<Rightarrow> string \<Rightarrow> pyerr + pyval" where
  "getitem d k = (case d k of None \<Rightarrow> Inl KeyError | Some v \<Rightarrow> Inr v)"

text \<open>
  \<^verbatim>\<open>toSyslogLevelMapping[key]\<close> for an arbitrary key: hashing the key comes first and
  raises \<^verbatim>\<open>TypeError\<close> for an unhashable one; a key that is not one of the levels of
  the table raises \<^verbatim>\<open>KeyError\<close>.
\<close>

definition level_getitem :: "pyval \<Rightarrow> pyerr + int" where
  "level_getitem key =
     (if \<not> hashable key then Inl TypeError
      else case key of
        PyLevel l \<Rightarrow> (case toSyslogLevelMapping l of None \<Rightarrow> Inl KeyError | Some p \<Rightarrow> Inr p)
      | _ \<Rightarrow> Inl KeyError)"

subsection \<open>Text\<close>

definition NL :: char where "NL = CHR 0x0A"
definition TAB :: char where "TAB = CHR 0x09"

text \<open>\<^verbatim>\<open>text.split(sep)\<close> for a separator of one character.\<close>

fun str_split :: "char \<Rightarrow> string \<Rightarrow> string list" where
  "str_split sep [] = [[]]"
| "str_split sep (c # cs) =
     (if c = sep then [] # str_split sep cs
      else case str_split sep cs of
        [] \<Rightarrow> [[c]]
      | l # ls \<Rightarrow> (c # l) # ls)"

text \<open>\<^verbatim>\<open>sep.join(parts)\<close>.\<close>

fun str_join :: "string \<Rightarrow> string list \<Rightarrow> string" where
  "str_join sep [] = []"
| "str_join sep [x] = x"
| "str_join sep (x # y # ys) = x @ sep @ str_join sep (y # ys)"

text \<open>
  The loop \<^verbatim>\<open>while lines[-1:] == ['']: lines.pop()\<close>. The slice \<^verbatim>\<open>lines[-1:]\<close> is
  the empty list for an empty list, so the loop stops there.
\<close>

function pop_trailing_empty :: "string list \<Rightarrow> string list" where
  "pop_trailing_empty lines =
     (if lines \<noteq> [] \<and> last lines = [] then pop_trailing_empty (butlast lines) else lines)"
  by pat_completeness auto
termination
  by (relation "measure length") auto

declare pop_trailing_empty.simps [simp del]

section \<open>The observer\<close>

text \<open>
  A submission function is known by its identity: the \<^verbatim>\<open>syslog\<close> of the standard
  library, or some other callable. Calls into the operating system's log are recorded in
  a trace, in the order in which they are made.
\<close>

datatype syslog_fn = stdsyslog_syslog | other_syslog nat

datatype oscall =
    Openlog string int int
  | Syslog syslog_fn int string

text \<open>
  A submission can fail: the call \<^verbatim>\<open>self.syslog(priority | facility, text)\<close> raises when
  the callable rejects its arguments (the \<^verbatim>\<open>syslog\<close> of the standard library takes the
  priority as a C \<^verbatim>\<open>int\<close> and encodes the text), and nothing in the observer catches
  the exception. What a callable does with its arguments belongs to the callable, so it
  is a parameter \<open>submit\<close> of the model: \<open>submit f p t\<close> is \<open>None\<close> when the call of
  \<open>f\<close> with \<open>p\<close> and \<open>t\<close> returns, and the exception that it raises otherwise.
\<close>

type_synonym submission = "syslog_fn \<Rightarrow> int \<Rightarrow> string \<Rightarrow> pyerr option"

text \<open>
  The attributes of a \<^verbatim>\<open>SyslogObserver\<close>. The attribute \<^verbatim>\<open>_encoding\<close> is \<^verbatim>\<open>None\<close>
  in every observer (the constructor assigns it under \<^verbatim>\<open>if False: ... else:\<close>), so the
  encoding step of \<^verbatim>\<open>__call__\<close> never runs and the attribute is left out.
  The formatter is a function from the event to text or \<^verbatim>\<open>None\<close>, as its
  documentation types it.
\<close>

record observer =
  formatEvent :: "event \<Rightarrow> string option"
  syslog :: syslog_fn

text \<open>
  \<^verbatim>\<open>SyslogObserver.__init__(formatEvent, prefix, options, facility, syslog)\<close>: opens the
  log and binds the attributes. The attribute \<^verbatim>\<open>syslog\<close> is bound to
  \<^verbatim>\<open>stdsyslog.syslog\<close>, whatever the argument \<^verbatim>\<open>syslog\<close> is.
\<close>

definition SyslogObserver_init ::
  "(event \<Rightarrow> string option) \<Rightarrow> string \<Rightarrow> int \<Rightarrow> int \<Rightarrow> syslog_fn \<Rightarrow> oscall list
     \<Rightarrow> observer \<times> oscall list" where
  "SyslogObserver_init formatEvent_arg prefix options facility syslog_arg tr =
     (\<lparr>formatEvent = formatEvent_arg, syslog = stdsyslog_syslog\<rparr>,
      tr @ [Openlog prefix options facility])"

text \<open>What a call of the observer leaves behind.\<close>

record outcome =
  raised :: "pyerr option"
  event_out :: event
  trace_out :: "oscall list"

text \<open>Lines 88 to 91: the formatted text, with \<^verbatim>\<open>None\<close> read as the empty text.\<close>

definition formatted :: "observer \<Rightarrow> event \<Rightarrow> string" where
  "formatted self event = (case formatEvent self event of None \<Rightarrow> [] | Some t \<Rightarrow> t)"

text \<open>
  Lines 95 to 98: the priority of the event's level; \<^verbatim>\<open>KeyError\<close>, from a missing
  \<^verbatim>\<open>log_level\<close> or from a value that is no key of the table, gives \<^verbatim>\<open>LOG_INFO\<close>.
\<close>

definition level_priority :: "event \<Rightarrow> pyerr + int" where
  "level_priority event =
     (case (case getitem event ''log_level'' of
              Inl e \<Rightarrow> Inl e
            | Inr v \<Rightarrow> level_getitem v) of
        Inl KeyError \<Rightarrow> Inr LOG_INFO
      | r \<Rightarrow> r)"

text \<open>Lines 88 to 104: the text and the priority of an event.\<close>

definition resolve ::
  "(string \<Rightarrow> int option) \<Rightarrow> observer \<Rightarrow> event \<Rightarrow> pyerr + string \<times> int" where
  "resolve parse self event =
     (let text = formatted self event in
      case level_priority event of
        Inl e \<Rightarrow> Inl e
      | Inr priority \<Rightarrow>
          if event ''log_failure'' \<noteq> None then
            (case getitem event ''log_failure'' of
               Inl e \<Rightarrow> Inl e
             | Inr f \<Rightarrow>
                 (case getTraceback f of
                    Inl e \<Rightarrow> Inl e
                  | Inr tb \<Rightarrow> Inr (str_join [NL] [text, tb], LOG_ALERT)))
          else if event ''syslogPriority'' \<noteq> None then
            (case getitem event ''syslogPriority'' of
               Inl e \<Rightarrow> Inl e
             | Inr v \<Rightarrow>
                 (case py_int parse v of
                    Inl e \<Rightarrow> Inl e
                  | Inr p \<Rightarrow> Inr (text, p)))
          else Inr (text, priority))"

text \<open>Lines 111 to 113: the facility of an event.\<close>

definition facility_of :: "(string \<Rightarrow> int option) \<Rightarrow> event \<Rightarrow> pyerr + int" where
  "facility_of parse event =
     (if event ''syslogFacility'' \<noteq> None then
        (case getitem event ''syslogFacility'' of
           Inl e \<Rightarrow> Inl e
         | Inr v \<Rightarrow> py_int parse v)
      else Inr 0)"

text \<open>
  Lines 119 to 127: the loop over the lines. The flag and the indented line are computed
  as in the source; the call submits \<open>text\<close>. The call is recorded, and when it raises
  the loop ends there: the exception leaves \<^verbatim>\<open>__call__\<close> and no further call is made.
\<close>

fun write_lines ::
  "submission \<Rightarrow> syslog_fn \<Rightarrow> int \<Rightarrow> int \<Rightarrow> string \<Rightarrow> bool \<Rightarrow> string list \<Rightarrow> oscall list
     \<Rightarrow> pyerr option \<times> oscall list" where
  "write_lines submit f priority facility text firstLine [] tr = (None, tr)"
| "write_lines submit f priority facility text firstLine (line # rest) tr =
     (let (firstLine', line') =
            (if firstLine then (False, line) else (firstLine, TAB # line))
      in case submit f (priority OR facility) text of
           Some e \<Rightarrow> (Some e, tr @ [Syslog f (priority OR facility) text])
         | None \<Rightarrow>
             write_lines submit f priority facility text firstLine' rest
               (tr @ [Syslog f (priority OR facility) text]))"

text \<open>\<^verbatim>\<open>SyslogObserver.__call__(event)\<close>, run after the calls of the trace \<open>tr\<close>.\<close>

definition call ::
  "(string \<Rightarrow> int option) \<Rightarrow> submission \<Rightarrow> observer \<Rightarrow> event \<Rightarrow> oscall list \<Rightarrow> outcome" where
  "call parse submit self event tr =
     (case resolve parse self event of
        Inl e \<Rightarrow> \<lparr>raised = Some e, event_out = event, trace_out = tr\<rparr>
      | Inr (text, priority) \<Rightarrow>
          if text \<noteq> [] then
            (case facility_of parse event of
               Inl e \<Rightarrow> \<lparr>raised = Some e, event_out = event, trace_out = tr\<rparr>
             | Inr facility \<Rightarrow>
                 (let lines = pop_trailing_empty (str_split NL text);
                      (r, tr') = write_lines submit (syslog self) priority facility text
                                   True lines tr
                  in \<lparr>raised = r, event_out = event, trace_out = tr'\<rparr>))
          else \<lparr>raised = None, event_out = event, trace_out = tr\<rparr>)"

text \<open>
  \<^verbatim>\<open>textSyslogObserver(prefix, options, facility, timeFormat)\<close>. The two formatting
  functions of \<^verbatim>\<open>_format.py\<close>, which is not among the sources, are parameters:
  \<open>formatEventAsClassicLogText\<close> takes the event and a function that formats its time,
  \<open>formatTime\<close> takes the event and the time format.
\<close>

definition textSyslogObserver ::
  "(event \<Rightarrow> (event \<Rightarrow> string) \<Rightarrow> string option) \<Rightarrow> (event \<Rightarrow> string option \<Rightarrow> string)
     \<Rightarrow> string \<Rightarrow> int \<Rightarrow> int \<Rightarrow> string option \<Rightarrow> oscall list \<Rightarrow> observer \<times> oscall list" where
  "textSyslogObserver formatEventAsClassicLogText formatTime prefix options facility timeFormat tr =
     SyslogObserver_init
       (\<lambda>event. formatEventAsClassicLogText event (\<lambda>e. formatTime e timeFormat))
       prefix DEFAULT_OPTIONS DEFAULT_FACILITY stdsyslog_syslog tr"

text \<open>
  The level of an event can be looked up: it is absent, or a value that can be hashed.
  The level constants are such values, and so is any text or number in their place.
\<close>

definition level_ok :: "event \<Rightarrow> bool" where
  "level_ok event = (case event ''log_level'' of None \<Rightarrow> True | Some v \<Rightarrow> hashable v)"

text \<open>
  Inputs for the worked instances below. \<open>reads_nothing\<close> is a reading of text that
  accepts no text as an integer. \<open>test_observer what\<close> is the observer of the test
  suite: a formatter that returns \<open>what\<close> for every event, and a recording callable
  assigned to the attribute \<^verbatim>\<open>syslog\<close> after construction.
\<close>

definition reads_nothing :: "string \<Rightarrow> int option" where
  "reads_nothing s = None"

definition test_observer :: "string option \<Rightarrow> observer" where
  "test_observer what = \<lparr>formatEvent = (\<lambda>e. what), syslog = other_syslog 0\<rparr>"

text \<open>
  Two submission behaviours for the worked instances. With \<open>returns_always\<close> every
  call returns, as with the recording callable of the tests. With \<open>c_int_syslog\<close> a
  call raises \<^verbatim>\<open>OverflowError\<close> when its priority does not fit a C \<^verbatim>\<open>int\<close> of 32
  bits, as the \<^verbatim>\<open>syslog\<close> of the standard library does.
\<close>

definition returns_always :: submission where
  "returns_always f p t = None"

definition fits_c_int :: "int \<Rightarrow> bool" where
  "fits_c_int p \<longleftrightarrow> - (2 ^ 31) \<le> p \<and> p < 2 ^ 31"

definition c_int_syslog :: submission where
  "c_int_syslog f p t = (if fits_c_int p then None else Some OverflowError)"

section \<open>The event as a mutable object\<close>

text \<open>
  The event is a mutable \<^verbatim>\<open>dict\<close>, and the call hands it to code that the observer does
  not own: \<^verbatim>\<open>self.formatEvent(event)\<close> receives the dict itself, and the failure whose
  \<^verbatim>\<open>getTraceback\<close> is called is an object taken out of it. In the model below the dict
  is a store that every operation takes and returns. The two operations of
  \<^verbatim>\<open>__call__\<close> itself, \<^verbatim>\<open>key in event\<close> and \<^verbatim>\<open>event[key]\<close>, are reads. The
  formatter and the \<^verbatim>\<open>getTraceback\<close> of the failure may write: they return the store
  as they leave it.
\<close>

definition dict_contains :: "string \<Rightarrow> event \<Rightarrow> bool \<times> event" where
  "dict_contains k d = (d k \<noteq> None, d)"

definition dict_getitem :: "string \<Rightarrow> event \<Rightarrow> (pyerr + pyval) \<times> event" where
  "dict_getitem k d = (getitem d k, d)"

record mutating_observer =
  formatEvent_m :: "event \<Rightarrow> string option \<times> event"
  syslog_m :: syslog_fn

text \<open>Lines 110 to 127 on the store: the facility, the lines and the submissions.\<close>

definition emit_m ::
  "(string \<Rightarrow> int option) \<Rightarrow> submission \<Rightarrow> mutating_observer \<Rightarrow> string \<Rightarrow> int \<Rightarrow> event
     \<Rightarrow> oscall list \<Rightarrow> outcome" where
  "emit_m parse submit self text priority d tr =
     (if text \<noteq> [] then
        (let (has_facility, d1) = dict_contains ''syslogFacility'' d;
             (facility_result, d2) =
               (if has_facility then
                  (let (v, d') = dict_getitem ''syslogFacility'' d1
                   in (case v of Inl e \<Rightarrow> Inl e | Inr fv \<Rightarrow> py_int parse fv, d'))
                else (Inr 0, d1))
         in case facility_result of
              Inl e \<Rightarrow> \<lparr>raised = Some e, event_out = d2, trace_out = tr\<rparr>
            | Inr facility \<Rightarrow>
                (let lines = pop_trailing_empty (str_split NL text);
                     (r, tr') = write_lines submit (syslog_m self) priority facility text
                                  True lines tr
                 in \<lparr>raised = r, event_out = d2, trace_out = tr'\<rparr>))
      else \<lparr>raised = None, event_out = d, trace_out = tr\<rparr>)"

text \<open>
  \<^verbatim>\<open>SyslogObserver.__call__(event)\<close> on the store, statement by statement.
  \<open>getTraceback_m f d\<close> is the call of \<^verbatim>\<open>getTraceback\<close> on the value \<open>f\<close> while
  the dict holds \<open>d\<close>: its result and the dict as it leaves it.
\<close>

definition call_m ::
  "(string \<Rightarrow> int option) \<Rightarrow> submission \<Rightarrow> (pyval \<Rightarrow> event \<Rightarrow> (pyerr + string) \<times> event)
     \<Rightarrow> mutating_observer \<Rightarrow> event \<Rightarrow> oscall list \<Rightarrow> outcome" where
  "call_m parse submit getTraceback_m self d0 tr =
     (let (formatted0, d1) = formatEvent_m self d0;
          text = (case formatted0 of None \<Rightarrow> [] | Some t \<Rightarrow> t);
          (level, d2) = dict_getitem ''log_level'' d1
      in case (case (case level of Inl e \<Rightarrow> Inl e | Inr v \<Rightarrow> level_getitem v) of
                 Inl KeyError \<Rightarrow> Inr LOG_INFO
               | r \<Rightarrow> r) of
           Inl e \<Rightarrow> \<lparr>raised = Some e, event_out = d2, trace_out = tr\<rparr>
         | Inr priority \<Rightarrow>
             (let (has_failure, d3) = dict_contains ''log_failure'' d2 in
              if has_failure then
                (let (f, d4) = dict_getitem ''log_failure'' d3 in
                 case f of
                   Inl e \<Rightarrow> \<lparr>raised = Some e, event_out = d4, trace_out = tr\<rparr>
                 | Inr fv \<Rightarrow>
                     (let (tb, d5) = getTraceback_m fv d4 in
                      case tb of
                        Inl e \<Rightarrow> \<lparr>raised = Some e, event_out = d5, trace_out = tr\<rparr>
                      | Inr tbtext \<Rightarrow>
                          emit_m parse submit self (str_join [NL] [text, tbtext]) LOG_ALERT
                            d5 tr))
              else
                (let (has_priority, d4) = dict_contains ''syslogPriority'' d3 in
                 if has_priority then
                   (let (v, d5) = dict_getitem ''syslogPriority'' d4 in
                    case (case v of Inl e \<Rightarrow> Inl e | Inr pv \<Rightarrow> py_int parse pv) of
                      Inl e \<Rightarrow> \<lparr>raised = Some e, event_out = d5, trace_out = tr\<rparr>
                    | Inr p \<Rightarrow> emit_m parse submit self text p d5 tr)
                 else emit_m parse submit self text priority d4 tr)))"

section \<open>Text and the loops\<close>

lemma str_split_not_Nil: "str_split sep s \<noteq> []"
  by (induction s) (auto split: list.splits)

text \<open>
  \<open>str_split\<close> is the splitting of Python: joining the parts with the separator gives
  the text back, and no part contains the separator.
\<close>

lemma str_join_split: "str_join [sep] (str_split sep s) = s"
proof (induction s)
  case Nil
  show ?case by simp
next
  case (Cons c cs)
  obtain l ls where "str_split sep cs = l # ls"
    using str_split_not_Nil [of sep cs] by (cases "str_split sep cs") auto
  with Cons show ?case by (cases ls) auto
qed

lemma str_split_no_sep: "l \<in> set (str_split sep s) \<Longrightarrow> sep \<notin> set l"
  by (induction s arbitrary: l) (auto split: list.splits if_splits)

lemma length_str_split: "length (str_split sep s) = Suc (length (filter (\<lambda>c. c = sep) s))"
  by (induction s) (auto split: list.splits simp: str_split_not_Nil)

text \<open>
  The popping loop drops exactly the trailing empty lines: what it returns is the list
  without its longest suffix of empty texts.
\<close>

lemma pop_trailing_empty_dropWhile:
  "pop_trailing_empty lines = rev (dropWhile (\<lambda>l. l = []) (rev lines))"
proof (induction lines rule: pop_trailing_empty.induct)
  case (1 lines)
  show ?case
  proof (cases lines rule: rev_cases)
    case Nil
    then show ?thesis by (simp add: pop_trailing_empty.simps [of "[]"])
  next
    case (snoc ys y)
    show ?thesis
    proof (cases "y = []")
      case True
      with snoc have "pop_trailing_empty (butlast lines) =
          rev (dropWhile (\<lambda>l. l = []) (rev (butlast lines)))"
        by (intro 1) simp
      with snoc True show ?thesis
        by (simp add: pop_trailing_empty.simps [of "ys @ [[]]"])
    next
      case False
      with snoc show ?thesis
        by (simp add: pop_trailing_empty.simps [of "ys @ [y]"])
    qed
  qed
qed

text \<open>
  The writing loop makes the same call for each line. When the call returns, there is one
  call for each line; when it raises, the first call is the only one.
\<close>

lemma write_lines_returns:
  "submit f (priority OR facility) text = None \<Longrightarrow>
     write_lines submit f priority facility text firstLine lines tr =
       (None, tr @ replicate (length lines) (Syslog f (priority OR facility) text))"
  by (induction lines arbitrary: firstLine tr) (simp_all add: replicate_append_same)

lemma write_lines_raises:
  "submit f (priority OR facility) text = Some e \<Longrightarrow> lines \<noteq> [] \<Longrightarrow>
     write_lines submit f priority facility text firstLine lines tr =
       (Some e, tr @ [Syslog f (priority OR facility) text])"
  by (cases lines) simp_all

lemma write_lines_trace:
  "\<exists>n. snd (write_lines submit f priority facility text firstLine lines tr) =
         tr @ replicate n (Syslog f (priority OR facility) text)
       \<and> (fst (write_lines submit f priority facility text firstLine lines tr) = None \<longrightarrow>
            n = length lines)"
proof (cases "submit f (priority OR facility) text")
  case None
  from write_lines_returns [of submit f priority facility "text" firstLine lines tr, OF None]
  show ?thesis by simp
next
  case (Some e)
  show ?thesis
  proof (cases "lines = []")
    case True
    then have "write_lines submit f priority facility text firstLine lines tr =
        (None, tr @ replicate 0 (Syslog f (priority OR facility) text))" by simp
    with True show ?thesis by (intro exI [of _ 0]) simp
  next
    case False
    from write_lines_raises [of submit f priority facility "text" e lines firstLine tr, OF Some False]
    show ?thesis by (intro exI [of _ 1]) simp
  qed
qed


section \<open>The priority of the level\<close>

lemma level_priority_absent:
  "event ''log_level'' = None \<Longrightarrow> level_priority event = Inr LOG_INFO"
  by (simp add: level_priority_def getitem_def)

lemma level_priority_level:
  "event ''log_level'' = Some (PyLevel l) \<Longrightarrow>
     level_priority event =
       Inr (case l of debug \<Rightarrow> LOG_DEBUG | info \<Rightarrow> LOG_INFO | warn \<Rightarrow> LOG_WARNING
            | error \<Rightarrow> LOG_ERR | critical \<Rightarrow> LOG_ALERT)"
  by (cases l) (simp_all add: level_priority_def getitem_def level_getitem_def
      toSyslogLevelMapping_def)

lemma level_priority_other:
  "event ''log_level'' = Some v \<Longrightarrow> hashable v \<Longrightarrow> (\<And>l. v \<noteq> PyLevel l) \<Longrightarrow>
     level_priority event = Inr LOG_INFO"
  by (cases v) (auto simp: level_priority_def getitem_def level_getitem_def)

lemma level_priority_unhashable:
  "event ''log_level'' = Some v \<Longrightarrow> \<not> hashable v \<Longrightarrow> level_priority event = Inl TypeError"
  by (simp add: level_priority_def getitem_def level_getitem_def)

lemma level_ok_priority:
  assumes "level_ok event"
  obtains p where "level_priority event = Inr p"
proof (cases "event ''log_level''")
  case None
  then show ?thesis using that level_priority_absent by blast
next
  case (Some v)
  with assms have h: "hashable v" by (simp add: level_ok_def)
  show ?thesis
  proof (cases "\<exists>l. v = PyLevel l")
    case True
    with Some show ?thesis using that level_priority_level by blast
  next
    case False
    with Some h show ?thesis using that level_priority_other by blast
  qed
qed

section \<open>Resolution and submission\<close>

lemma resolve_failure:
  "level_priority event = Inr p \<Longrightarrow> event ''log_failure'' = Some (PyFailure tb) \<Longrightarrow>
     resolve parse self event = Inr (formatted self event @ [NL] @ tb, LOG_ALERT)"
  by (simp add: resolve_def getitem_def)

lemma resolve_syslogPriority:
  "level_priority event = Inr p \<Longrightarrow> event ''log_failure'' = None \<Longrightarrow>
   event ''syslogPriority'' = Some v \<Longrightarrow> py_int parse v = Inr n \<Longrightarrow>
     resolve parse self event = Inr (formatted self event, n)"
  by (simp add: resolve_def getitem_def)

lemma resolve_level:
  "level_priority event = Inr p \<Longrightarrow> event ''log_failure'' = None \<Longrightarrow>
   event ''syslogPriority'' = None \<Longrightarrow>
     resolve parse self event = Inr (formatted self event, p)"
  by (simp add: resolve_def)

lemma facility_of_cases:
  "(case event ''syslogFacility'' of None \<Rightarrow> facility = 0
    | Some v \<Rightarrow> py_int parse v = Inr facility) \<Longrightarrow>
     facility_of parse event = Inr facility"
  by (simp add: facility_of_def getitem_def split: option.splits)

lemma resolve_failure_priority:
  "event ''log_failure'' = Some (PyFailure tb) \<Longrightarrow> resolve parse self event = Inr (text, p) \<Longrightarrow>
     text = formatted self event @ [NL] @ tb \<and> p = LOG_ALERT"
  by (auto simp: resolve_def getitem_def Let_def split: sum.splits)

lemma resolve_syslogPriority_priority:
  "event ''log_failure'' = None \<Longrightarrow> event ''syslogPriority'' = Some v \<Longrightarrow>
   py_int parse v = Inr n \<Longrightarrow> resolve parse self event = Inr (text, p) \<Longrightarrow>
     text = formatted self event \<and> p = n"
  by (auto simp: resolve_def getitem_def Let_def split: sum.splits)

lemma resolve_level_error:
  "level_priority event = Inl e \<Longrightarrow> resolve parse self event = Inl e"
  by (simp add: resolve_def)


lemma call_submits:
  "resolve parse self event = Inr (text, priority) \<Longrightarrow> text \<noteq> [] \<Longrightarrow>
   facility_of parse event = Inr facility \<Longrightarrow>
   submit (syslog self) (priority OR facility) text = None \<Longrightarrow>
     call parse submit self event tr =
       \<lparr>raised = None, event_out = event,
        trace_out = tr @ replicate (length (pop_trailing_empty (str_split NL text)))
                      (Syslog (syslog self) (priority OR facility) text)\<rparr>"
  by (simp add: call_def write_lines_returns)

lemma call_no_line:
  "resolve parse self event = Inr (text, priority) \<Longrightarrow> text \<noteq> [] \<Longrightarrow>
   facility_of parse event = Inr facility \<Longrightarrow>
   pop_trailing_empty (str_split NL text) = [] \<Longrightarrow>
     call parse submit self event tr = \<lparr>raised = None, event_out = event, trace_out = tr\<rparr>"
  by (simp add: call_def)

lemma call_submit_raises:
  "resolve parse self event = Inr (text, priority) \<Longrightarrow> text \<noteq> [] \<Longrightarrow>
   facility_of parse event = Inr facility \<Longrightarrow>
   submit (syslog self) (priority OR facility) text = Some e \<Longrightarrow>
   pop_trailing_empty (str_split NL text) \<noteq> [] \<Longrightarrow>
     call parse submit self event tr =
       \<lparr>raised = Some e, event_out = event,
        trace_out = tr @ [Syslog (syslog self) (priority OR facility) text]\<rparr>"
  by (simp add: call_def write_lines_raises)

lemma call_trace:
  assumes "resolve parse self event = Inr (text, priority)" and "text \<noteq> []"
    and "facility_of parse event = Inr facility"
  shows "\<exists>n. trace_out (call parse submit self event tr) =
           tr @ replicate n (Syslog (syslog self) (priority OR facility) text)
         \<and> (raised (call parse submit self event tr) = None \<longrightarrow>
              n = length (pop_trailing_empty (str_split NL text)))"
proof -
  let ?w = "write_lines submit (syslog self) priority facility text True
              (pop_trailing_empty (str_split NL text)) tr"
  from assms have "trace_out (call parse submit self event tr) = snd ?w"
    and "raised (call parse submit self event tr) = fst ?w"
    by (simp_all add: call_def split: prod.split)
  with write_lines_trace [of submit "syslog self" priority facility "text" True
      "pop_trailing_empty (str_split NL text)" tr]
  show ?thesis by simp
qed

lemma call_empty:
  "resolve parse self event = Inr ([], priority) \<Longrightarrow>
     call parse submit self event tr = \<lparr>raised = None, event_out = event, trace_out = tr\<rparr>"
  by (simp add: call_def)

lemma call_resolve_error:
  "resolve parse self event = Inl e \<Longrightarrow>
     call parse submit self event tr = \<lparr>raised = Some e, event_out = event, trace_out = tr\<rparr>"
  by (simp add: call_def)

lemma call_facility_error:
  "resolve parse self event = Inr (t, priority) \<Longrightarrow> facility_of parse event = Inl e \<Longrightarrow>
     trace_out (call parse submit self event tr) = tr"
  by (simp add: call_def)

text \<open>
  With a formatter and a \<^verbatim>\<open>getTraceback\<close> that only read, the call on the store is the
  call on the event.
\<close>

lemma emit_m_event:
  "event_out (emit_m parse submit self t priority d tr) = d"
  by (simp add: emit_m_def dict_contains_def dict_getitem_def Let_def
      split: sum.split prod.split)

lemma emit_m_unfold:
  "emit_m parse submit \<lparr>formatEvent_m = fm, syslog_m = f\<rparr> t priority event tr =
     (if t \<noteq> [] then
        (case facility_of parse event of
           Inl e \<Rightarrow> \<lparr>raised = Some e, event_out = event, trace_out = tr\<rparr>
         | Inr facility \<Rightarrow>
             (let (r, tr') = write_lines submit f priority facility t True
                               (pop_trailing_empty (str_split NL t)) tr
              in \<lparr>raised = r, event_out = event, trace_out = tr'\<rparr>))
      else \<lparr>raised = None, event_out = event, trace_out = tr\<rparr>)"
  by (simp add: emit_m_def facility_of_def dict_contains_def dict_getitem_def Let_def
      split: sum.split)


lemma call_m_call:
  "call_m parse submit (\<lambda>v d. (getTraceback v, d))
     \<lparr>formatEvent_m = (\<lambda>d. (formatEvent self d, d)), syslog_m = syslog self\<rparr> event tr =
   call parse submit self event tr"
proof (cases "level_priority event")
  case (Inl e)
  then show ?thesis
    by (simp add: call_m_def call_def resolve_def level_priority_def dict_getitem_def)
next
  case (Inr p)
  then show ?thesis
    by (simp add: call_m_def emit_m_unfold call_def resolve_def formatted_def
        level_priority_def dict_contains_def dict_getitem_def getitem_def Let_def
        split: sum.split option.split)
qed

lemmas eval_defs =
  call_def resolve_def formatted_def level_priority_def getitem_def level_getitem_def
  toSyslogLevelMapping_def facility_of_def level_ok_def test_observer_def reads_nothing_def
  returns_always_def c_int_syslog_def fits_c_int_def
  NL_def TAB_def LOG_ALERT_def LOG_ERR_def LOG_WARNING_def LOG_INFO_def LOG_DEBUG_def
  pop_trailing_empty.simps

section \<open>The claims\<close>

text \<open>
  Claim C1. For an event whose resolved text is not empty, every submission that the call
  makes carries the whole resolved text as its second argument, on the bound submission
  function: the line of the loop, and the tab put before a continuation line, never
  reach the call. When the call returns, there are as many submissions as lines.
\<close>

theorem C1_submissions_carry_full_text:
  assumes "resolve parse self event = Inr (text, priority)" and "text \<noteq> []"
  shows "\<exists>calls. trace_out (call parse submit self event tr) = tr @ calls
           \<and> (\<forall>c \<in> set calls. \<exists>pf. c = Syslog (syslog self) pf text)
           \<and> (raised (call parse submit self event tr) = None \<longrightarrow>
                length calls = length (pop_trailing_empty (str_split NL text)))"
proof (cases "facility_of parse event")
  case (Inl e)
  with assms have "trace_out (call parse submit self event tr) = tr @ []"
    and "raised (call parse submit self event tr) \<noteq> None"
    by (simp_all add: call_def)
  then show ?thesis by (intro exI [of _ "[]"]) auto
next
  case (Inr facility)
  from call_trace [OF assms Inr, of submit tr] obtain n
    where nl: "trace_out (call parse submit self event tr) =
                 tr @ replicate n (Syslog (syslog self) (priority OR facility) text)
               \<and> (raised (call parse submit self event tr) = None \<longrightarrow>
                    n = length (pop_trailing_empty (str_split NL text)))" ..
  then show ?thesis
    by (intro exI [of _ "replicate n (Syslog (syslog self) (priority OR facility) text)"]) auto
qed

theorem C1_submissions_carry_full_text_witness:
  "resolve reads_nothing (test_observer (Some (''hello,'' @ [NL] @ ''world''))) Map.empty =
     Inr (''hello,'' @ [NL] @ ''world'', LOG_INFO)
   \<and> ''hello,'' @ [NL] @ ''world'' \<noteq> []
   \<and> (\<exists>calls.
        trace_out (call reads_nothing returns_always (test_observer (Some (''hello,'' @ [NL] @ ''world'')))
          Map.empty []) = [] @ calls
        \<and> (\<forall>c \<in> set calls. \<exists>pf. c =
              Syslog (syslog (test_observer (Some (''hello,'' @ [NL] @ ''world'')))) pf
                (''hello,'' @ [NL] @ ''world''))
        \<and> (raised (call reads_nothing returns_always (test_observer (Some (''hello,'' @ [NL] @ ''world'')))
              Map.empty []) = None \<longrightarrow>
            length calls = length (pop_trailing_empty (str_split NL (''hello,'' @ [NL] @ ''world'')))))
   \<and> trace_out (call reads_nothing returns_always (test_observer (Some (''hello,'' @ [NL] @ ''world'')))
        Map.empty []) =
        [Syslog (other_syslog 0) LOG_INFO (''hello,'' @ [NL] @ ''world''),
         Syslog (other_syslog 0) LOG_INFO (''hello,'' @ [NL] @ ''world'')]"
proof -
  let ?self = "test_observer (Some (''hello,'' @ [NL] @ ''world''))"
  have r: "resolve reads_nothing ?self Map.empty = Inr (''hello,'' @ [NL] @ ''world'', LOG_INFO)"
    by (simp add: eval_defs)
  have t: "''hello,'' @ [NL] @ ''world'' \<noteq> []" by simp
  have v: "trace_out (call reads_nothing returns_always ?self Map.empty []) =
        [Syslog (other_syslog 0) LOG_INFO (''hello,'' @ [NL] @ ''world''),
         Syslog (other_syslog 0) LOG_INFO (''hello,'' @ [NL] @ ''world'')]"
    by (simp add: eval_defs)
  note e = C1_submissions_carry_full_text [OF r t, of returns_always "[]"]
  show ?thesis by (rule conjI [OF r conjI [OF t conjI [OF e v]]])
qed

text \<open>
  Claim C2. For an event whose resolved text is not empty, let the lines be the text
  split at newlines, without its trailing empty lines (an empty line between others
  stays). Where the facility is 0 for an event without \<^verbatim>\<open>syslogFacility\<close> and
  \<^verbatim>\<open>int(event["syslogFacility"])\<close> otherwise, and the submission function returns
  when called with \<^verbatim>\<open>priority | facility\<close> and the text, the call returns after exactly
  one submission for each line, each with the first argument \<^verbatim>\<open>priority | facility\<close>.
  When the submission function raises instead, the first call is the only one, and its
  exception is the outcome of the call.
\<close>

theorem C2_one_submission_per_line:
  assumes "resolve parse self event = Inr (text, priority)" and "text \<noteq> []"
    and "case event ''syslogFacility'' of None \<Rightarrow> facility = 0
         | Some v \<Rightarrow> py_int parse v = Inr facility"
  shows "(submit (syslog self) (priority OR facility) text = None \<longrightarrow>
            call parse submit self event tr =
              \<lparr>raised = None, event_out = event,
               trace_out = tr @
                 replicate (length (rev (dropWhile (\<lambda>l. l = []) (rev (str_split NL text)))))
                   (Syslog (syslog self) (priority OR facility) text)\<rparr>)
       \<and> (\<forall>e. submit (syslog self) (priority OR facility) text = Some e \<longrightarrow>
            rev (dropWhile (\<lambda>l. l = []) (rev (str_split NL text))) \<noteq> [] \<longrightarrow>
            call parse submit self event tr =
              \<lparr>raised = Some e, event_out = event,
               trace_out = tr @ [Syslog (syslog self) (priority OR facility) text]\<rparr>)"
proof -
  from assms(3) have f: "facility_of parse event = Inr facility"
    by (rule facility_of_cases)
  show ?thesis
  proof (intro conjI allI impI)
    assume "submit (syslog self) (priority OR facility) text = None"
    from call_submits [of parse self event "text" priority facility submit tr,
        OF assms(1,2) f this]
    show "call parse submit self event tr =
              \<lparr>raised = None, event_out = event,
               trace_out = tr @
                 replicate (length (rev (dropWhile (\<lambda>l. l = []) (rev (str_split NL text)))))
                   (Syslog (syslog self) (priority OR facility) text)\<rparr>"
      by (simp add: pop_trailing_empty_dropWhile)
  next
    fix e
    assume "submit (syslog self) (priority OR facility) text = Some e"
      and "rev (dropWhile (\<lambda>l. l = []) (rev (str_split NL text))) \<noteq> []"
    then show "call parse submit self event tr =
              \<lparr>raised = Some e, event_out = event,
               trace_out = tr @ [Syslog (syslog self) (priority OR facility) text]\<rparr>"
      using call_submit_raises [of parse self event "text" priority facility submit e tr,
          OF assms(1,2) f]
      by (simp add: pop_trailing_empty_dropWhile)
  qed
qed

theorem C2_one_submission_per_line_witness:
  "resolve reads_nothing (test_observer (Some (''hello,'' @ [NL] @ [NL] @ ''world'' @ [NL, NL])))
      [''syslogFacility'' \<mapsto> PyInt 9] =
     Inr (''hello,'' @ [NL] @ [NL] @ ''world'' @ [NL, NL], LOG_INFO)
   \<and> ''hello,'' @ [NL] @ [NL] @ ''world'' @ [NL, NL] \<noteq> []
   \<and> py_int reads_nothing (PyInt 9) = Inr 9
   \<and> c_int_syslog (other_syslog 0) 15 (''hello,'' @ [NL] @ [NL] @ ''world'' @ [NL, NL]) = None
   \<and> call reads_nothing c_int_syslog
        (test_observer (Some (''hello,'' @ [NL] @ [NL] @ ''world'' @ [NL, NL])))
        [''syslogFacility'' \<mapsto> PyInt 9] [] =
        \<lparr>raised = None, event_out = [''syslogFacility'' \<mapsto> PyInt 9],
         trace_out = replicate 3
           (Syslog (other_syslog 0) 15 (''hello,'' @ [NL] @ [NL] @ ''world'' @ [NL, NL]))\<rparr>
   \<and> c_int_syslog (other_syslog 0) 2147483654
         (''hello,'' @ [NL] @ [NL] @ ''world'' @ [NL, NL]) = Some OverflowError
   \<and> call reads_nothing c_int_syslog
        (test_observer (Some (''hello,'' @ [NL] @ [NL] @ ''world'' @ [NL, NL])))
        [''syslogFacility'' \<mapsto> PyInt 2147483648] [] =
        \<lparr>raised = Some OverflowError, event_out = [''syslogFacility'' \<mapsto> PyInt 2147483648],
         trace_out =
           [Syslog (other_syslog 0) 2147483654 (''hello,'' @ [NL] @ [NL] @ ''world'' @ [NL, NL])]\<rparr>"
proof -
  let ?text = "''hello,'' @ [NL] @ [NL] @ ''world'' @ [NL, NL]"
  let ?self = "test_observer (Some ?text)"
  let ?event = "[''syslogFacility'' \<mapsto> PyInt 9]"
  let ?big = "[''syslogFacility'' \<mapsto> PyInt 2147483648]"
  have r: "resolve reads_nothing ?self ?event = Inr (?text, LOG_INFO)"
    by (simp add: eval_defs)
  have r': "resolve reads_nothing ?self ?big = Inr (?text, LOG_INFO)"
    by (simp add: eval_defs)
  have t: "?text \<noteq> []" by simp
  have f: "case ?event ''syslogFacility'' of None \<Rightarrow> 9 = (0::int)
           | Some v \<Rightarrow> py_int reads_nothing v = Inr 9"
    by simp
  have f': "case ?big ''syslogFacility'' of None \<Rightarrow> 2147483648 = (0::int)
           | Some v \<Rightarrow> py_int reads_nothing v = Inr 2147483648"
    by simp
  have p: "py_int reads_nothing (PyInt 9) = Inr 9" by simp
  have n: "length (rev (dropWhile (\<lambda>l. l = []) (rev (str_split NL ?text)))) = 3"
    by (simp add: NL_def)
  have n': "rev (dropWhile (\<lambda>l. l = []) (rev (str_split NL ?text))) \<noteq> []"
    by (simp add: NL_def)
  have o: "LOG_INFO OR 9 = (15::int)" by (simp add: LOG_INFO_def)
  have o': "LOG_INFO OR 2147483648 = (2147483654::int)" by (simp add: LOG_INFO_def)
  have s: "syslog ?self = other_syslog 0" by (simp add: test_observer_def)
  have a: "c_int_syslog (other_syslog 0) 15 ?text = None"
    by (simp add: c_int_syslog_def fits_c_int_def)
  have a': "c_int_syslog (other_syslog 0) 2147483654 ?text = Some OverflowError"
    by (simp add: c_int_syslog_def fits_c_int_def)
  have b: "c_int_syslog (syslog ?self) (LOG_INFO OR 9) ?text = None"
    by (simp only: s o a)
  have b': "c_int_syslog (syslog ?self) (LOG_INFO OR 2147483648) ?text = Some OverflowError"
    by (simp only: s o' a')
  note w = C2_one_submission_per_line [OF r t f, of c_int_syslog "[]"]
  note w' = C2_one_submission_per_line [OF r' t f', of c_int_syslog "[]"]
  from w [THEN conjunct1, THEN mp, OF b]
  have c: "call reads_nothing c_int_syslog ?self ?event [] =
        \<lparr>raised = None, event_out = ?event,
         trace_out = replicate 3 (Syslog (other_syslog 0) 15 ?text)\<rparr>"
    by (simp only: n o s append_Nil)
  from w' [THEN conjunct2, THEN spec, THEN mp, OF b', THEN mp, OF n']
  have c': "call reads_nothing c_int_syslog ?self ?big [] =
        \<lparr>raised = Some OverflowError, event_out = ?big,
         trace_out = [Syslog (other_syslog 0) 2147483654 ?text]\<rparr>"
    by (simp only: o' s append_Nil)
  show ?thesis
    by (rule conjI [OF r conjI [OF t conjI [OF p conjI [OF a conjI [OF c conjI [OF a' c']]]]]])
qed

text \<open>
  Claim C3. The priority follows a fixed precedence. For an event that holds a failure
  value, no priority other than \<^verbatim>\<open>LOG_ALERT\<close> is ever resolved, whatever its level
  and whatever its \<^verbatim>\<open>syslogPriority\<close>. For an event without a failure and with a
  \<^verbatim>\<open>syslogPriority\<close>, no priority is resolved but the integer that \<^verbatim>\<open>int\<close> reads
  from that field, whatever the level gives. In both cases the priority is resolved, and
  is the one named, for every event whose level is absent or a value that a dict can look
  up (\<open>level_ok\<close>), as every symbolic level is.
\<close>

theorem C3_priority_precedence:
  "(event ''log_failure'' = Some (PyFailure tb) \<longrightarrow>
      (\<forall>text p. resolve parse self event = Inr (text, p) \<longrightarrow> p = LOG_ALERT)
      \<and> (level_ok event \<longrightarrow> (\<exists>text. resolve parse self event = Inr (text, LOG_ALERT))))
   \<and> (event ''log_failure'' = None \<longrightarrow> event ''syslogPriority'' = Some v \<longrightarrow>
      py_int parse v = Inr n \<longrightarrow>
      (\<forall>text p. resolve parse self event = Inr (text, p) \<longrightarrow> p = n)
      \<and> (level_ok event \<longrightarrow> resolve parse self event = Inr (formatted self event, n)))"
proof (intro conjI impI allI)
  fix t p
  assume "event ''log_failure'' = Some (PyFailure tb)"
    and "resolve parse self event = Inr (t, p)"
  then show "p = LOG_ALERT" by (rule resolve_failure_priority [THEN conjunct2])
next
  assume f: "event ''log_failure'' = Some (PyFailure tb)" and l: "level_ok event"
  from l obtain p where p: "level_priority event = Inr p" by (rule level_ok_priority)
  from resolve_failure [OF p f]
  show "\<exists>text. resolve parse self event = Inr (text, LOG_ALERT)" by blast
next
  fix t p
  assume "event ''log_failure'' = None" and "event ''syslogPriority'' = Some v"
    and "py_int parse v = Inr n" and "resolve parse self event = Inr (t, p)"
  then show "p = n" by (rule resolve_syslogPriority_priority [THEN conjunct2])
next
  assume a: "event ''log_failure'' = None" "event ''syslogPriority'' = Some v"
    "py_int parse v = Inr n" and "level_ok event"
  from this(4) obtain p where p: "level_priority event = Inr p" by (rule level_ok_priority)
  from a show "resolve parse self event = Inr (formatted self event, n)"
    by (rule resolve_syslogPriority [OF p])
qed


theorem C3_priority_precedence_witness:
  "level_ok [''log_level'' \<mapsto> PyLevel debug, ''syslogPriority'' \<mapsto> PyInt 3,
             ''log_failure'' \<mapsto> PyFailure ''TB'']
   \<and> (\<exists>t. resolve reads_nothing (test_observer (Some ''hello''))
          [''log_level'' \<mapsto> PyLevel debug, ''syslogPriority'' \<mapsto> PyInt 3,
           ''log_failure'' \<mapsto> PyFailure ''TB''] = Inr (t, LOG_ALERT))
   \<and> level_ok [''log_level'' \<mapsto> PyLevel debug, ''syslogPriority'' \<mapsto> PyInt 3]
   \<and> resolve reads_nothing (test_observer (Some ''hello''))
          [''log_level'' \<mapsto> PyLevel debug, ''syslogPriority'' \<mapsto> PyInt 3] = Inr (''hello'', 3)"
proof -
  let ?e1 = "[''log_level'' \<mapsto> PyLevel debug, ''syslogPriority'' \<mapsto> PyInt 3,
              ''log_failure'' \<mapsto> PyFailure ''TB'']"
  let ?e2 = "[''log_level'' \<mapsto> PyLevel debug, ''syslogPriority'' \<mapsto> PyInt 3]"
  let ?self = "test_observer (Some ''hello'')"
  have l1: "level_ok ?e1" by (simp add: level_ok_def)
  have l2: "level_ok ?e2" by (simp add: level_ok_def)
  have f1: "?e1 ''log_failure'' = Some (PyFailure ''TB'')" by simp
  have f2: "?e2 ''log_failure'' = None" by simp
  have s2: "?e2 ''syslogPriority'' = Some (PyInt 3)" by simp
  have i2: "py_int reads_nothing (PyInt 3) = Inr 3" by simp
  have t2: "formatted ?self ?e2 = ''hello''" by (simp add: formatted_def test_observer_def)
  from C3_priority_precedence [of ?e1 "''TB''" reads_nothing ?self "PyInt 3" 3] f1 l1
  have a: "\<exists>t. resolve reads_nothing ?self ?e1 = Inr (t, LOG_ALERT)" by blast
  from C3_priority_precedence [of ?e2 "''TB''" reads_nothing ?self "PyInt 3" 3] f2 s2 i2 l2
  have "resolve reads_nothing ?self ?e2 = Inr (formatted ?self ?e2, 3)" by blast
  then have b: "resolve reads_nothing ?self ?e2 = Inr (''hello'', 3)" by (simp only: t2)
  show ?thesis by (rule conjI [OF l1 conjI [OF a conjI [OF l2 b]]])
qed

text \<open>
  Claim C4. For an event whose level is one of the five symbolic levels, with no failure
  and no \<^verbatim>\<open>syslogPriority\<close>, the resolved priority is the one of the table: debug
  gives \<^verbatim>\<open>LOG_DEBUG\<close>, info \<^verbatim>\<open>LOG_INFO\<close>, warn \<^verbatim>\<open>LOG_WARNING\<close>, error
  \<^verbatim>\<open>LOG_ERR\<close>, critical \<^verbatim>\<open>LOG_ALERT\<close>.
\<close>

theorem C4_level_table:
  assumes "event ''log_level'' = Some (PyLevel l)"
    and "event ''log_failure'' = None" and "event ''syslogPriority'' = None"
  shows "resolve parse self event =
           Inr (formatted self event,
                case l of debug \<Rightarrow> LOG_DEBUG | info \<Rightarrow> LOG_INFO | warn \<Rightarrow> LOG_WARNING
                | error \<Rightarrow> LOG_ERR | critical \<Rightarrow> LOG_ALERT)"
  by (rule resolve_level [OF level_priority_level [of event l, OF assms(1)] assms(2,3)])

theorem C4_level_table_witness:
  "resolve reads_nothing (test_observer (Some ''x'')) [''log_level'' \<mapsto> PyLevel debug] = Inr (''x'', 7)
   \<and> resolve reads_nothing (test_observer (Some ''x'')) [''log_level'' \<mapsto> PyLevel info] = Inr (''x'', 6)
   \<and> resolve reads_nothing (test_observer (Some ''x'')) [''log_level'' \<mapsto> PyLevel warn] = Inr (''x'', 4)
   \<and> resolve reads_nothing (test_observer (Some ''x'')) [''log_level'' \<mapsto> PyLevel error] = Inr (''x'', 3)
   \<and> resolve reads_nothing (test_observer (Some ''x'')) [''log_level'' \<mapsto> PyLevel critical] = Inr (''x'', 1)"
proof -
  have t: "\<And>e. formatted (test_observer (Some ''x'')) e = ''x''"
    by (simp add: formatted_def test_observer_def)
  have w: "resolve reads_nothing (test_observer (Some ''x'')) [''log_level'' \<mapsto> PyLevel l] =
      Inr (''x'', case l of debug \<Rightarrow> LOG_DEBUG | info \<Rightarrow> LOG_INFO | warn \<Rightarrow> LOG_WARNING
                | error \<Rightarrow> LOG_ERR | critical \<Rightarrow> LOG_ALERT)" for l
    using C4_level_table [of "[''log_level'' \<mapsto> PyLevel l]" l reads_nothing "test_observer (Some ''x'')"]
    by (simp add: t)
  show ?thesis
    using w [of debug] w [of info] w [of warn] w [of error] w [of critical]
    by (simp add: LOG_ALERT_def LOG_ERR_def LOG_WARNING_def LOG_INFO_def LOG_DEBUG_def)
qed

text \<open>
  Claim C5 says that a level that is none of the five symbolic levels resolves to
  \<^verbatim>\<open>LOG_INFO\<close> and never raises. The lookup \<^verbatim>\<open>toSyslogLevelMapping[...]\<close> hashes its
  key, and the handler catches \<^verbatim>\<open>KeyError\<close> only: for an event whose
  \<^verbatim>\<open>log_level\<close> is a list, the resolution raises \<^verbatim>\<open>TypeError\<close>.
\<close>

theorem C5_counterexample:
  "(\<forall>l. PyList [] \<noteq> PyLevel l)
   \<and> [''log_level'' \<mapsto> PyList []] ''log_failure'' = None
   \<and> [''log_level'' \<mapsto> PyList []] ''syslogPriority'' = None
   \<and> resolve reads_nothing (test_observer (Some ''x'')) [''log_level'' \<mapsto> PyList []] =
       Inl TypeError
   \<and> raised (call reads_nothing returns_always (test_observer (Some ''x'')) [''log_level'' \<mapsto> PyList []] []) =
       Some TypeError"
  by (simp add: eval_defs)

text \<open>
  Claim C5, amended. For an event whose level is absent, or is a hashable value that is
  none of the five symbolic levels (text, a number, \<^verbatim>\<open>None\<close>), with no failure and no
  \<^verbatim>\<open>syslogPriority\<close>, the resolution returns \<^verbatim>\<open>LOG_INFO\<close> and raises nothing.
\<close>

theorem C5_unrecognized_level_is_INFO:
  assumes "event ''log_level'' = None
           \<or> (\<exists>v. event ''log_level'' = Some v \<and> hashable v \<and> (\<forall>l. v \<noteq> PyLevel l))"
    and "event ''log_failure'' = None" and "event ''syslogPriority'' = None"
  shows "resolve parse self event = Inr (formatted self event, LOG_INFO)"
proof -
  from assms(1) have "level_priority event = Inr LOG_INFO"
    using level_priority_absent level_priority_other by blast
  then show ?thesis using assms(2,3) by (rule resolve_level)
qed

theorem C5_unrecognized_level_is_INFO_witness:
  "resolve reads_nothing (test_observer (Some ''x'')) Map.empty = Inr (''x'', 6)
   \<and> resolve reads_nothing (test_observer (Some ''x'')) [''log_level'' \<mapsto> PyStr ''INVALID''] = Inr (''x'', 6)
   \<and> resolve reads_nothing (test_observer (Some ''x'')) [''log_level'' \<mapsto> PyNone] = Inr (''x'', 6)"
proof -
  let ?self = "test_observer (Some ''x'')"
  have t: "\<And>e. formatted ?self e = ''x''"
    by (simp add: formatted_def test_observer_def)
  have a: "resolve reads_nothing ?self Map.empty = Inr (''x'', 6)"
    using C5_unrecognized_level_is_INFO [of Map.empty reads_nothing ?self]
    by (simp add: t LOG_INFO_def)
  have b: "resolve reads_nothing ?self [''log_level'' \<mapsto> PyStr ''INVALID''] = Inr (''x'', 6)"
    using C5_unrecognized_level_is_INFO [of "[''log_level'' \<mapsto> PyStr ''INVALID'']" reads_nothing ?self]
    by (simp add: t LOG_INFO_def)
  have c: "resolve reads_nothing ?self [''log_level'' \<mapsto> PyNone] = Inr (''x'', 6)"
    using C5_unrecognized_level_is_INFO [of "[''log_level'' \<mapsto> PyNone]" reads_nothing ?self]
    by (simp add: t LOG_INFO_def)
  show ?thesis by (rule conjI [OF a conjI [OF b c]])
qed

text \<open>
  Claim C6. For an event that holds a failure value, every submission that the call makes
  carries the formatted text, a newline, and the traceback text of the failure, at
  priority \<^verbatim>\<open>LOG_ALERT\<close>. When the level of the event can be looked up, that text and
  \<^verbatim>\<open>LOG_ALERT\<close> are what the resolution returns; and once the facility is read and
  the submission function returns for these arguments, the call makes one such submission
  for each line. With the formatter's text \<^verbatim>\<open>hello\<close> and the traceback \<^verbatim>\<open>TB...\<close>
  the submitted text is \<^verbatim>\<open>hello\nTB...\<close>.
\<close>

theorem C6_failure_appends_traceback:
  assumes "event ''log_failure'' = Some (PyFailure tb)"
  shows "(\<exists>n facility. trace_out (call parse submit self event tr) =
            tr @ replicate n (Syslog (syslog self) (LOG_ALERT OR facility)
                                (formatted self event @ [NL] @ tb)))
       \<and> (level_ok event \<longrightarrow>
            resolve parse self event = Inr (formatted self event @ [NL] @ tb, LOG_ALERT)
            \<and> (\<forall>facility. facility_of parse event = Inr facility \<longrightarrow>
                 submit (syslog self) (LOG_ALERT OR facility)
                   (formatted self event @ [NL] @ tb) = None \<longrightarrow>
                 call parse submit self event tr =
                   \<lparr>raised = None, event_out = event,
                    trace_out = tr @
                      replicate (length (pop_trailing_empty
                                   (str_split NL (formatted self event @ [NL] @ tb))))
                        (Syslog (syslog self) (LOG_ALERT OR facility)
                           (formatted self event @ [NL] @ tb))\<rparr>))"
proof -
  let ?text = "formatted self event @ [NL] @ tb"
  have t: "?text \<noteq> []" by simp
  have submits: "call parse submit self event tr =
      \<lparr>raised = None, event_out = event,
       trace_out = tr @ replicate (length (pop_trailing_empty (str_split NL ?text)))
                     (Syslog (syslog self) (LOG_ALERT OR facility) ?text)\<rparr>"
    if "level_priority event = Inr p" and "facility_of parse event = Inr facility"
      and "submit (syslog self) (LOG_ALERT OR facility) ?text = None"
    for p facility
    using resolve_failure [OF that(1) assms] t that(2,3) by (rule call_submits)
  have silent: "\<exists>n facility. trace_out (call parse submit self event tr) =
      tr @ replicate n (Syslog (syslog self) (LOG_ALERT OR facility) ?text)"
    if "trace_out (call parse submit self event tr) = tr"
  proof -
    from that have "trace_out (call parse submit self event tr) =
        tr @ replicate 0 (Syslog (syslog self) (LOG_ALERT OR 0) ?text)" by simp
    then show ?thesis by blast
  qed
  have first: "\<exists>n facility. trace_out (call parse submit self event tr) =
      tr @ replicate n (Syslog (syslog self) (LOG_ALERT OR facility) ?text)"
  proof (cases "level_priority event")
    case (Inl e)
    then have "trace_out (call parse submit self event tr) = tr"
      by (simp add: call_resolve_error [OF resolve_level_error])
    then show ?thesis by (rule silent)
  next
    case (Inr p)
    show ?thesis
    proof (cases "facility_of parse event")
      case (Inl e)
      from call_facility_error [OF resolve_failure [OF Inr assms] Inl]
      show ?thesis by (rule silent)
    next
      case fac: (Inr facility)
      from call_trace [OF resolve_failure [OF Inr assms] t fac, of submit tr]
      show ?thesis by blast
    qed
  qed
  have second: "resolve parse self event = Inr (?text, LOG_ALERT)
      \<and> (\<forall>facility. facility_of parse event = Inr facility \<longrightarrow>
           submit (syslog self) (LOG_ALERT OR facility) ?text = None \<longrightarrow>
           call parse submit self event tr =
             \<lparr>raised = None, event_out = event,
              trace_out = tr @ replicate (length (pop_trailing_empty (str_split NL ?text)))
                            (Syslog (syslog self) (LOG_ALERT OR facility) ?text)\<rparr>)"
    if "level_ok event"
  proof -
    from that obtain p where p: "level_priority event = Inr p" by (rule level_ok_priority)
    from resolve_failure [OF p assms] submits [OF p] show ?thesis by blast
  qed
  from first second show ?thesis by blast
qed

theorem C6_failure_appends_traceback_witness:
  "[''log_failure'' \<mapsto> PyFailure ''TB...''] ''log_failure'' = Some (PyFailure ''TB...'')
   \<and> level_ok [''log_failure'' \<mapsto> PyFailure ''TB...'']
   \<and> resolve reads_nothing (test_observer (Some ''hello'')) [''log_failure'' \<mapsto> PyFailure ''TB...'']
        = Inr (''hello'' @ [NL] @ ''TB...'', LOG_ALERT)
   \<and> c_int_syslog (other_syslog 0) 1 (''hello'' @ [NL] @ ''TB...'') = None
   \<and> call reads_nothing c_int_syslog (test_observer (Some ''hello''))
        [''log_failure'' \<mapsto> PyFailure ''TB...''] []
        = \<lparr>raised = None, event_out = [''log_failure'' \<mapsto> PyFailure ''TB...''],
           trace_out = replicate 2 (Syslog (other_syslog 0) 1 (''hello'' @ [NL] @ ''TB...''))\<rparr>"
proof -
  let ?event = "[''log_failure'' \<mapsto> PyFailure ''TB...'']"
  let ?self = "test_observer (Some ''hello'')"
  let ?text = "''hello'' @ [NL] @ ''TB...''"
  have f: "?event ''log_failure'' = Some (PyFailure ''TB...'')" by simp
  have l: "level_ok ?event" by (simp add: level_ok_def)
  have t: "formatted ?self ?event = ''hello''" by (simp add: formatted_def test_observer_def)
  have fa: "facility_of reads_nothing ?event = Inr 0" by (simp add: facility_of_def)
  have n: "length (pop_trailing_empty (str_split NL ?text)) = 2"
    by (simp add: NL_def pop_trailing_empty.simps)
  have o: "LOG_ALERT OR 0 = (1::int)" by (simp add: LOG_ALERT_def)
  have s: "syslog ?self = other_syslog 0" by (simp add: test_observer_def)
  have a: "c_int_syslog (other_syslog 0) 1 ?text = None"
    by (simp add: c_int_syslog_def fits_c_int_def)
  from C6_failure_appends_traceback
    [of ?event "''TB...''" reads_nothing c_int_syslog ?self "[]", OF f] l
  have w: "resolve reads_nothing ?self ?event = Inr (?text, LOG_ALERT)
      \<and> (\<forall>facility. facility_of reads_nothing ?event = Inr facility \<longrightarrow>
            c_int_syslog (syslog ?self) (LOG_ALERT OR facility) ?text = None \<longrightarrow>
            call reads_nothing c_int_syslog ?self ?event [] =
              \<lparr>raised = None, event_out = ?event,
               trace_out = [] @
                 replicate (length (pop_trailing_empty (str_split NL ?text)))
                   (Syslog (syslog ?self) (LOG_ALERT OR facility) ?text)\<rparr>)"
    unfolding t by (rule conjunct2 [THEN mp])
  from w have r: "resolve reads_nothing ?self ?event = Inr (?text, LOG_ALERT)"
    by (rule conjunct1)
  from w [THEN conjunct2, THEN spec, THEN mp, OF fa]
  have "c_int_syslog (other_syslog 0) 1 ?text = None \<longrightarrow>
      call reads_nothing c_int_syslog ?self ?event [] =
        \<lparr>raised = None, event_out = ?event,
         trace_out = replicate 2 (Syslog (other_syslog 0) 1 ?text)\<rparr>"
    by (simp only: n o s append_Nil)
  from this [THEN mp, OF a]
  have c: "call reads_nothing c_int_syslog ?self ?event [] =
        \<lparr>raised = None, event_out = ?event,
         trace_out = replicate 2 (Syslog (other_syslog 0) 1 ?text)\<rparr>" .
  show ?thesis by (rule conjI [OF f conjI [OF l conjI [OF r conjI [OF a c]]]])
qed

text \<open>
  Claim C7 says that no submission is made when the formatter yields an absent value or
  when the resolved text is empty. The first half fails for an event with a failure: the
  formatter yields \<^verbatim>\<open>None\<close>, the text becomes a newline and the traceback, and two
  submissions are made.
\<close>

theorem C7_counterexample:
  "formatEvent (test_observer None) [''log_failure'' \<mapsto> PyFailure ''TB''] = None
   \<and> call reads_nothing returns_always (test_observer None) [''log_failure'' \<mapsto> PyFailure ''TB''] [] =
       \<lparr>raised = None, event_out = [''log_failure'' \<mapsto> PyFailure ''TB''],
        trace_out = [Syslog (other_syslog 0) LOG_ALERT (NL # ''TB''),
                     Syslog (other_syslog 0) LOG_ALERT (NL # ''TB'')]\<rparr>"
  by (simp add: eval_defs)

text \<open>
  Claim C7, amended. When the resolved text, after the traceback of a failure has been
  appended, is empty, the call makes no submission and raises nothing. That is so, in
  particular, when the formatter yields an absent value or the empty text and the event
  holds no failure (its level can be looked up and its \<^verbatim>\<open>syslogPriority\<close>, if any, is
  read by \<^verbatim>\<open>int\<close>). The facility is not looked at.
\<close>

theorem C7_empty_text_no_submission:
  "(resolve parse self event = Inr ([], priority) \<longrightarrow>
      call parse submit self event tr = \<lparr>raised = None, event_out = event, trace_out = tr\<rparr>)
   \<and> ((formatEvent self event = None \<or> formatEvent self event = Some []) \<longrightarrow>
      event ''log_failure'' = None \<longrightarrow> level_ok event \<longrightarrow>
      (event ''syslogPriority'' = None
       \<or> (\<exists>v p. event ''syslogPriority'' = Some v \<and> py_int parse v = Inr p)) \<longrightarrow>
      call parse submit self event tr = \<lparr>raised = None, event_out = event, trace_out = tr\<rparr>)"
proof (intro conjI impI)
  assume "resolve parse self event = Inr ([], priority)"
  then show "call parse submit self event tr = \<lparr>raised = None, event_out = event, trace_out = tr\<rparr>"
    by (rule call_empty)
next
  assume fmt: "formatEvent self event = None \<or> formatEvent self event = Some []"
    and nf: "event ''log_failure'' = None" and l: "level_ok event"
    and sp: "event ''syslogPriority'' = None
       \<or> (\<exists>v p. event ''syslogPriority'' = Some v \<and> py_int parse v = Inr p)"
  from fmt have t: "formatted self event = []" by (auto simp: formatted_def)
  from l obtain p where p: "level_priority event = Inr p" by (rule level_ok_priority)
  from sp have "\<exists>q. resolve parse self event = Inr ([], q)"
  proof
    assume "event ''syslogPriority'' = None"
    from resolve_level [OF p nf this, of parse self] t show ?thesis by auto
  next
    assume "\<exists>v p. event ''syslogPriority'' = Some v \<and> py_int parse v = Inr p"
    then obtain v q where "event ''syslogPriority'' = Some v" and "py_int parse v = Inr q"
      by blast
    from resolve_syslogPriority [OF p nf this, of self] t show ?thesis by auto
  qed
  then obtain q where "resolve parse self event = Inr ([], q)" ..
  then show "call parse submit self event tr = \<lparr>raised = None, event_out = event, trace_out = tr\<rparr>"
    by (rule call_empty)
qed

theorem C7_empty_text_no_submission_witness:
  "resolve reads_nothing (test_observer (Some [])) [''syslogFacility'' \<mapsto> PyNone] = Inr ([], 6)
   \<and> call reads_nothing returns_always (test_observer (Some [])) [''syslogFacility'' \<mapsto> PyNone] [] =
       \<lparr>raised = None, event_out = [''syslogFacility'' \<mapsto> PyNone], trace_out = []\<rparr>
   \<and> formatEvent (test_observer None) [''syslogPriority'' \<mapsto> PyInt 3] = None
   \<and> level_ok [''syslogPriority'' \<mapsto> PyInt 3]
   \<and> call reads_nothing returns_always (test_observer None) [''syslogPriority'' \<mapsto> PyInt 3] [] =
       \<lparr>raised = None, event_out = [''syslogPriority'' \<mapsto> PyInt 3], trace_out = []\<rparr>"
proof -
  let ?e1 = "[''syslogFacility'' \<mapsto> PyNone]"
  let ?e2 = "[''syslogPriority'' \<mapsto> PyInt 3]"
  have r: "resolve reads_nothing (test_observer (Some [])) ?e1 = Inr ([], 6)"
    by (simp add: eval_defs)
  have f: "formatEvent (test_observer None) ?e2 = None" by (simp add: test_observer_def)
  have l: "level_ok ?e2" by (simp add: level_ok_def)
  have nf: "?e2 ''log_failure'' = None" by simp
  have sp: "?e2 ''syslogPriority'' = None
       \<or> (\<exists>v p. ?e2 ''syslogPriority'' = Some v \<and> py_int reads_nothing v = Inr p)" by simp
  from C7_empty_text_no_submission [of reads_nothing "test_observer (Some [])" ?e1 6 returns_always "[]"] r
  have a: "call reads_nothing returns_always (test_observer (Some [])) ?e1 [] =
       \<lparr>raised = None, event_out = ?e1, trace_out = []\<rparr>"
    by (rule conjunct1 [THEN mp])
  from C7_empty_text_no_submission [of reads_nothing "test_observer None" ?e2 6 returns_always "[]"]
  have "(formatEvent (test_observer None) ?e2 = None \<or> formatEvent (test_observer None) ?e2 = Some []) \<longrightarrow>
      ?e2 ''log_failure'' = None \<longrightarrow> level_ok ?e2 \<longrightarrow>
      (?e2 ''syslogPriority'' = None
       \<or> (\<exists>v p. ?e2 ''syslogPriority'' = Some v \<and> py_int reads_nothing v = Inr p)) \<longrightarrow>
      call reads_nothing returns_always (test_observer None) ?e2 [] =
        \<lparr>raised = None, event_out = ?e2, trace_out = []\<rparr>"
    by (rule conjunct2)
  from this [THEN mp, OF disjI1, OF f, THEN mp, OF nf, THEN mp, OF l, THEN mp, OF sp]
  have b: "call reads_nothing returns_always (test_observer None) ?e2 [] =
        \<lparr>raised = None, event_out = ?e2, trace_out = []\<rparr>" .
  show ?thesis by (rule conjI [OF r conjI [OF a conjI [OF f conjI [OF l b]]]])
qed

text \<open>
  Claim C8 says that an observer constructed with a submission function submits through
  that function. The constructor takes the argument \<^verbatim>\<open>syslog\<close> and then binds the
  attribute to \<^verbatim>\<open>stdsyslog.syslog\<close>: an observer constructed with another callable
  and called on the empty event, with a formatter that returns \<^verbatim>\<open>hello\<close>, submits
  through the standard library's function, and the callable it was given is never called.
\<close>

theorem C8_injected_syslog_not_called:
  "syslog (fst (SyslogObserver_init (\<lambda>e. Some ''hello'') ''test_syslog''
             DEFAULT_OPTIONS DEFAULT_FACILITY (other_syslog 0) [])) = stdsyslog_syslog
   \<and> call reads_nothing c_int_syslog
         (fst (SyslogObserver_init (\<lambda>e. Some ''hello'') ''test_syslog''
                 DEFAULT_OPTIONS DEFAULT_FACILITY (other_syslog 0) []))
         Map.empty
         (snd (SyslogObserver_init (\<lambda>e. Some ''hello'') ''test_syslog''
                 DEFAULT_OPTIONS DEFAULT_FACILITY (other_syslog 0) [])) =
       \<lparr>raised = None, event_out = Map.empty,
        trace_out = [Openlog ''test_syslog'' 0 8, Syslog stdsyslog_syslog 6 ''hello'']\<rparr>"
  by (simp add: SyslogObserver_init_def DEFAULT_OPTIONS_def DEFAULT_FACILITY_def LOG_USER_def
      eval_defs)

text \<open>
  Claim C9. A call of the observer leaves the event as it was, whether the call returns
  or raises: \<^verbatim>\<open>__call__\<close> itself only reads the dict, by \<^verbatim>\<open>in\<close> and by
  subscription. On the store, where the formatter and the \<^verbatim>\<open>getTraceback\<close> of the
  failure are free to write, the dict after the call is the dict as the formatter left
  it, or as \<^verbatim>\<open>getTraceback\<close> left it after the formatter; so the dict is unchanged
  whenever these two leave it unchanged.
\<close>

theorem C9_event_unchanged:
  "(event_out (call_m parse submit getTraceback_m self d tr) = snd (formatEvent_m self d)
    \<or> (\<exists>f. snd (formatEvent_m self d) ''log_failure'' = Some f
          \<and> event_out (call_m parse submit getTraceback_m self d tr) =
              snd (getTraceback_m f (snd (formatEvent_m self d)))))
   \<and> (snd (formatEvent_m self d) = d \<longrightarrow> (\<forall>f. snd (getTraceback_m f d) = d) \<longrightarrow>
        event_out (call_m parse submit getTraceback_m self d tr) = d)"
proof -
  obtain text0 d1 where fe: "formatEvent_m self d = (text0, d1)"
    by (cases "formatEvent_m self d")
  have general: "event_out (call_m parse submit getTraceback_m self d tr) = d1
      \<or> (\<exists>f. d1 ''log_failure'' = Some f
            \<and> event_out (call_m parse submit getTraceback_m self d tr) =
                snd (getTraceback_m f d1))"
  proof (cases "d1 ''log_failure''")
    case None
    then have "event_out (call_m parse submit getTraceback_m self d tr) = d1"
      by (simp add: call_m_def fe emit_m_event dict_contains_def dict_getitem_def Let_def
          split: sum.split prod.split)
    then show ?thesis by blast
  next
    case (Some f)
    obtain tb d5 where g: "getTraceback_m f d1 = (tb, d5)"
      by (cases "getTraceback_m f d1")
    from Some g have "event_out (call_m parse submit getTraceback_m self d tr) = d1
        \<or> event_out (call_m parse submit getTraceback_m self d tr) = d5"
      by (simp add: call_m_def fe emit_m_event dict_contains_def dict_getitem_def getitem_def
          Let_def split: sum.split)
    with Some g show ?thesis by auto
  qed
  show ?thesis
  proof (intro conjI impI)
    from general fe
    show "event_out (call_m parse submit getTraceback_m self d tr) = snd (formatEvent_m self d)
      \<or> (\<exists>f. snd (formatEvent_m self d) ''log_failure'' = Some f
            \<and> event_out (call_m parse submit getTraceback_m self d tr) =
                snd (getTraceback_m f (snd (formatEvent_m self d))))"
      by simp
  next
    assume "snd (formatEvent_m self d) = d" and "\<forall>f. snd (getTraceback_m f d) = d"
    with general fe show "event_out (call_m parse submit getTraceback_m self d tr) = d"
      by auto
  qed
qed

theorem C9_event_unchanged_witness:
  "snd (formatEvent_m \<lparr>formatEvent_m = (\<lambda>d. (Some ''hello'', d)), syslog_m = other_syslog 0\<rparr>
          [''log_failure'' \<mapsto> PyFailure ''TB'', ''syslogFacility'' \<mapsto> PyInt 8]) =
     [''log_failure'' \<mapsto> PyFailure ''TB'', ''syslogFacility'' \<mapsto> PyInt 8]
   \<and> event_out (call_m reads_nothing returns_always (\<lambda>v d. (getTraceback v, d))
        \<lparr>formatEvent_m = (\<lambda>d. (Some ''hello'', d)), syslog_m = other_syslog 0\<rparr>
        [''log_failure'' \<mapsto> PyFailure ''TB'', ''syslogFacility'' \<mapsto> PyInt 8] []) =
     [''log_failure'' \<mapsto> PyFailure ''TB'', ''syslogFacility'' \<mapsto> PyInt 8]
   \<and> trace_out (call_m reads_nothing returns_always (\<lambda>v d. (getTraceback v, d))
        \<lparr>formatEvent_m = (\<lambda>d. (Some ''hello'', d)), syslog_m = other_syslog 0\<rparr>
        [''log_failure'' \<mapsto> PyFailure ''TB'', ''syslogFacility'' \<mapsto> PyInt 8] []) =
     [Syslog (other_syslog 0) 9 (''hello'' @ [NL] @ ''TB''),
      Syslog (other_syslog 0) 9 (''hello'' @ [NL] @ ''TB'')]
   \<and> event_out (call_m reads_nothing returns_always (\<lambda>v d. (getTraceback v, d))
        \<lparr>formatEvent_m = (\<lambda>d. (Some ''hello'', d(''seen'' \<mapsto> PyInt 1))),
          syslog_m = other_syslog 0\<rparr>
        Map.empty []) = [''seen'' \<mapsto> PyInt 1]"
proof -
  let ?self = "\<lparr>formatEvent_m = (\<lambda>d. (Some ''hello'', d)), syslog_m = other_syslog 0\<rparr>"
  let ?writer = "\<lparr>formatEvent_m = (\<lambda>d. (Some ''hello'', d(''seen'' \<mapsto> PyInt 1))),
                  syslog_m = other_syslog 0\<rparr>"
  let ?G = "\<lambda>v (d :: event). (getTraceback v, d)"
  let ?d = "[''log_failure'' \<mapsto> PyFailure ''TB'', ''syslogFacility'' \<mapsto> PyInt 8]"
  have h1: "snd (formatEvent_m ?self ?d) = ?d" by simp
  have h2: "\<forall>f. snd (?G f ?d) = ?d" by simp
  note w = C9_event_unchanged [of reads_nothing returns_always ?G ?self ?d "[]"]
  from w [THEN conjunct2, THEN mp, OF h1, THEN mp, OF h2]
  have a: "event_out (call_m reads_nothing returns_always ?G ?self ?d []) = ?d" .
  have b: "trace_out (call_m reads_nothing returns_always ?G ?self ?d []) =
      [Syslog (other_syslog 0) 9 (''hello'' @ [NL] @ ''TB''),
       Syslog (other_syslog 0) 9 (''hello'' @ [NL] @ ''TB'')]"
    by (simp add: call_m_def emit_m_def dict_contains_def dict_getitem_def eval_defs)
  have c: "event_out (call_m reads_nothing returns_always ?G ?writer Map.empty []) =
      [''seen'' \<mapsto> PyInt 1]"
    by (simp add: call_m_def emit_m_def dict_contains_def dict_getitem_def eval_defs)
  show ?thesis by (rule conjI [OF h1 conjI [OF a conjI [OF b c]]])
qed

text \<open>
  Claim C10. \<^verbatim>\<open>textSyslogObserver\<close> constructs its observer with
  \<^verbatim>\<open>DEFAULT_OPTIONS\<close> and \<^verbatim>\<open>DEFAULT_FACILITY\<close>, whatever the arguments
  \<open>options\<close> and \<open>facility\<close> are: the log is opened with the prefix and the two
  defaults, the formatter depends on the time format, and two calls that differ only in
  \<open>options\<close> and \<open>facility\<close> give the same result.
\<close>

theorem C10_options_and_facility_ignored:
  "textSyslogObserver formatEventAsClassicLogText formatTime prefix options facility timeFormat tr =
     (\<lparr>formatEvent = (\<lambda>event. formatEventAsClassicLogText event (\<lambda>e. formatTime e timeFormat)),
       syslog = stdsyslog_syslog\<rparr>,
      tr @ [Openlog prefix DEFAULT_OPTIONS DEFAULT_FACILITY])
   \<and> textSyslogObserver formatEventAsClassicLogText formatTime prefix options facility timeFormat tr =
     textSyslogObserver formatEventAsClassicLogText formatTime prefix options' facility' timeFormat tr"
  by (simp add: textSyslogObserver_def SyslogObserver_init_def)

theorem C10_options_and_facility_ignored_witness:
  "snd (textSyslogObserver (\<lambda>event ft. Some (ft event))
          (\<lambda>e tf. case tf of None \<Rightarrow> ''-'' | Some f \<Rightarrow> f) ''Twisted'' 1 24 (Some ''%f'') []) =
     [Openlog ''Twisted'' 0 8]
   \<and> formatEvent (fst (textSyslogObserver (\<lambda>event ft. Some (ft event))
          (\<lambda>e tf. case tf of None \<Rightarrow> ''-'' | Some f \<Rightarrow> f) ''Twisted'' 1 24 (Some ''%f'') []))
        Map.empty = Some ''%f''
   \<and> textSyslogObserver (\<lambda>event ft. Some (ft event))
          (\<lambda>e tf. case tf of None \<Rightarrow> ''-'' | Some f \<Rightarrow> f) ''Twisted'' 1 24 (Some ''%f'') [] =
      textSyslogObserver (\<lambda>event ft. Some (ft event))
          (\<lambda>e tf. case tf of None \<Rightarrow> ''-'' | Some f \<Rightarrow> f) ''Twisted'' 0 8 (Some ''%f'') []"
proof -
  let ?F = "\<lambda>(event :: event) ft. Some (ft event :: string)"
  let ?T = "\<lambda>(e :: event) tf. case tf of None \<Rightarrow> ''-'' | Some f \<Rightarrow> f"
  note w = C10_options_and_facility_ignored [of ?F ?T "''Twisted''" 1 24 "Some ''%f''" "[]" 0 8]
  from w have a: "snd (textSyslogObserver ?F ?T ''Twisted'' 1 24 (Some ''%f'') []) =
      [Openlog ''Twisted'' 0 8]"
    by (simp add: DEFAULT_OPTIONS_def DEFAULT_FACILITY_def LOG_USER_def)
  from w have b: "formatEvent (fst (textSyslogObserver ?F ?T ''Twisted'' 1 24 (Some ''%f'') []))
      Map.empty = Some ''%f''"
    by simp
  from w have c: "textSyslogObserver ?F ?T ''Twisted'' 1 24 (Some ''%f'') [] =
      textSyslogObserver ?F ?T ''Twisted'' 0 8 (Some ''%f'') []"
    by (rule conjunct2)
  show ?thesis by (rule conjI [OF a conjI [OF b c]])
qed

end
